theory Spec2Isabelle
  imports Main "HOL-Library.AList"
begin

section \<open>ClaimEase: job orchestration and pipeline execution\<close>

text \<open>
  The model covers \<^verbatim>\<open>services/worker/main.py\<close> (the pipeline executor, the stage
  adapter, the status writer and the queue consumer) and the job creation path of
  \<^verbatim>\<open>services/api-gateway/main.py\<close>. Redis is a reliable store: a hash per key, one
  list for the intake queue. The remote stages and the wall clock are inputs (\<open>env\<close>).
  Every effect on Redis and every stage call is appended to a chronological trace.

  Redis and the Celery broker always answer: a command never raises, so the handlers
  that only catch such failures (the HTTP 500 of the gateway) have no branch here.
  Logging is left out.
\<close>

subsection \<open>Python values\<close>

text \<open>Exceptions of the modelled code. \<open>str_exn\<close> is Python's \<^verbatim>\<open>str(e)\<close>.\<close>

datatype exn = Exception string | KeyError string | NameError string
  | UnicodeDecodeError string

text \<open>
  \<open>KeyError\<close> carries the \<^verbatim>\<open>repr\<close> of the missing key, \<open>NameError\<close> the name,
  \<open>UnicodeDecodeError\<close> its message.
\<close>

fun str_exn :: "exn \<Rightarrow> string" where
  "str_exn (Exception m) = m"
| "str_exn (KeyError k) = k"
| "str_exn (NameError n) = ''name '' @ [CHR 0x27] @ n @ [CHR 0x27] @ '' is not defined''"
| "str_exn (UnicodeDecodeError m) = m"

text \<open>
  The decoded body of a response (\<^verbatim>\<open>response.json()\<close>); \<open>JNull\<close> is Python's
  \<^verbatim>\<open>None\<close>. \<open>py_truthy\<close> is the truth value Python gives it in \<^verbatim>\<open>if not x\<close>.
\<close>

datatype json = JNull | JBool bool | JNum int | JStr string
  | JArr "json list" | JObj "(string \<times> json) list"

fun py_truthy :: "json \<Rightarrow> bool" where
  "py_truthy JNull = False"
| "py_truthy (JBool b) = b"
| "py_truthy (JNum n) = (n \<noteq> 0)"
| "py_truthy (JStr s) = (s \<noteq> [])"
| "py_truthy (JArr xs) = (xs \<noteq> [])"
| "py_truthy (JObj kvs) = (kvs \<noteq> [])"

text \<open>\<^verbatim>\<open>str(n)\<close> of an integer, in decimal.\<close>

definition digit_char :: "nat \<Rightarrow> char" where
  "digit_char d = ''0123456789'' ! d"

function str_nat :: "nat \<Rightarrow> string" where
  "str_nat n = (if n < 10 then [digit_char n] else str_nat (n div 10) @ [digit_char (n mod 10)])"
  by pat_completeness auto
termination
  by (relation "measure id") auto

declare str_nat.simps [simp del]

definition py_str :: "int \<Rightarrow> string" where
  "py_str i = (if i < 0 then CHR ''-'' # str_nat (nat (- i)) else str_nat (nat i))"

text \<open>
  \<^verbatim>\<open>int(s)\<close> on a decimal string with an optional minus sign, as the gateway reads
  the progress field back; \<open>None\<close> where Python raises ValueError.
\<close>

definition digit_val :: "char \<Rightarrow> nat option" where
  "digit_val c = (let k = (of_char c :: nat) in if 48 \<le> k \<and> k \<le> 57 then Some (k - 48) else None)"

fun int_digits :: "nat \<Rightarrow> string \<Rightarrow> nat option" where
  "int_digits acc [] = Some acc"
| "int_digits acc (c # cs) =
     (case digit_val c of None \<Rightarrow> None | Some d \<Rightarrow> int_digits (10 * acc + d) cs)"

fun py_int :: "string \<Rightarrow> int option" where
  "py_int [] = None"
| "py_int (c # cs) =
     (if c = CHR ''-'' then (if cs = [] then None else map_option (\<lambda>n. - int n) (int_digits 0 cs))
      else map_option int (int_digits 0 (c # cs)))"

text \<open>
  Byte strings and text are both \<open>string\<close>: text is held as its UTF-8 encoding.
  \<^verbatim>\<open>b.decode()\<close> succeeds exactly on valid UTF-8 and otherwise raises
  UnicodeDecodeError. \<open>utf8_scan\<close> follows the strict decoder: it gives the first
  offending range (start, end) with the reason, or \<open>None\<close> when all bytes decode.
\<close>

definition is_continuation :: "nat \<Rightarrow> bool" where
  "is_continuation b = (128 \<le> b \<and> b < 192)"

text \<open>
  The second byte of a three or four byte sequence: it has to be a continuation byte
  that gives neither an overlong form, nor a surrogate, nor a value above U+10FFFF.
\<close>

definition second_of_three :: "nat \<Rightarrow> nat \<Rightarrow> bool" where
  "second_of_three ch ch2 =
     (if is_continuation ch2 then (if ch2 < 160 then ch \<noteq> 224 else ch \<noteq> 237) else False)"

definition second_of_four :: "nat \<Rightarrow> nat \<Rightarrow> bool" where
  "second_of_four ch ch2 =
     (if is_continuation ch2 then (if ch2 < 144 then ch \<noteq> 240 else ch \<noteq> 244) else False)"

fun utf8_scan :: "nat \<Rightarrow> nat list \<Rightarrow> (nat \<times> nat \<times> string) option" where
  "utf8_scan pos [] = None"
| "utf8_scan pos (ch # s) =
     (if ch < 128 then utf8_scan (pos + 1) s
      else if ch < 194 then Some (pos, pos + 1, ''invalid start byte'')
      else if ch < 224 then
        (case s of
           [] \<Rightarrow> Some (pos, pos + 1, ''unexpected end of data'')
         | ch2 # s2 \<Rightarrow>
             if is_continuation ch2 then utf8_scan (pos + 2) s2
             else Some (pos, pos + 1, ''invalid continuation byte''))
      else if ch < 240 then
        (case s of
           [] \<Rightarrow> Some (pos, pos + 1, ''unexpected end of data'')
         | ch2 # s2 \<Rightarrow>
             if \<not> second_of_three ch ch2 then Some (pos, pos + 1, ''invalid continuation byte'')
             else (case s2 of
                     [] \<Rightarrow> Some (pos, pos + 2, ''unexpected end of data'')
                   | ch3 # s3 \<Rightarrow>
                       if is_continuation ch3 then utf8_scan (pos + 3) s3
                       else Some (pos, pos + 2, ''invalid continuation byte'')))
      else if ch < 245 then
        (case s of
           [] \<Rightarrow> Some (pos, pos + 1, ''unexpected end of data'')
         | ch2 # s2 \<Rightarrow>
             if \<not> second_of_four ch ch2 then Some (pos, pos + 1, ''invalid continuation byte'')
             else (case s2 of
                     [] \<Rightarrow> Some (pos, pos + 2, ''unexpected end of data'')
                   | ch3 # s3 \<Rightarrow>
                       if \<not> is_continuation ch3
                       then Some (pos, pos + 2, ''invalid continuation byte'')
                       else (case s3 of
                               [] \<Rightarrow> Some (pos, pos + 3, ''unexpected end of data'')
                             | ch4 # s4 \<Rightarrow>
                                 if is_continuation ch4 then utf8_scan (pos + 4) s4
                                 else Some (pos, pos + 3, ''invalid continuation byte''))))
      else Some (pos, pos + 1, ''invalid start byte''))"

definition hex_byte :: "nat \<Rightarrow> string" where
  "hex_byte b = [''0123456789abcdef'' ! (b div 16), ''0123456789abcdef'' ! (b mod 16)]"

definition decode_error_message :: "string \<Rightarrow> nat \<Rightarrow> nat \<Rightarrow> string \<Rightarrow> string" where
  "decode_error_message b start stop reason =
     [CHR 0x27] @ ''utf-8'' @ [CHR 0x27] @ '' codec can'' @ [CHR 0x27] @ ''t decode '' @
     (if stop - start = 1
      then ''byte 0x'' @ hex_byte (of_char (b ! start)) @ '' in position '' @ str_nat start
      else ''bytes in position '' @ str_nat start @ ''-'' @ str_nat (stop - 1)) @
     '': '' @ reason"

definition bytes_decode :: "string \<Rightarrow> exn + string" where
  "bytes_decode b =
     (case utf8_scan 0 (map of_char b) of
        None \<Rightarrow> Inr b
      | Some (start, stop, reason) \<Rightarrow>
          Inl (UnicodeDecodeError (decode_error_message b start stop reason)))"

subsection \<open>Redis, the environment and the trace\<close>

type_synonym fields = "(string \<times> string) list"

datatype event =
    HSet string fields
  | LPush string string
  | BRPop string "string option"
  | Call string string json
  | Delay string string

text \<open>
  \<open>hashes\<close>: the Redis hashes by key; a key with no hash has no fields (Redis keeps no
  empty hash). \<open>queue\<close>: the list \<^verbatim>\<open>processing_queue\<close>, head at the left. \<open>delayed\<close>:
  the pipeline tasks handed to Celery by \<^verbatim>\<open>.delay\<close>. \<open>trace\<close>: every effect so far,
  oldest first.
\<close>

record world =
  hashes :: "string \<Rightarrow> fields"
  queue :: "string list"
  delayed :: "(string \<times> string) list"
  trace :: "event list"

datatype outcome = Raises string | Returns json

text \<open>
  \<open>remote url\<close>: what \<^verbatim>\<open>client.post(url)\<close>, \<^verbatim>\<open>raise_for_status()\<close> and
  \<^verbatim>\<open>response.json()\<close> give together: an exception with its message (timeout,
  connection failure, error status, undecodable body) or the decoded body.
  \<open>utcnow n\<close>: \<^verbatim>\<open>datetime.utcnow().isoformat()\<close> read after \<open>n\<close> traced effects.
\<close>

record env =
  remote :: "string \<Rightarrow> outcome"
  utcnow :: "nat \<Rightarrow> string"

definition now :: "env \<Rightarrow> world \<Rightarrow> string" where
  "now e w = utcnow e (length (trace w))"

definition emit :: "event \<Rightarrow> world \<Rightarrow> world" where
  "emit ev w = w\<lparr>trace := trace w @ [ev]\<rparr>"

text \<open>\<^verbatim>\<open>HSET key f1 v1 f2 v2 ...\<close>: the given fields are merged into the hash.\<close>

definition merge_fields :: "fields \<Rightarrow> fields \<Rightarrow> fields" where
  "merge_fields h m = foldl (\<lambda>acc (f, v). AList.update f v acc) h m"

definition hset :: "string \<Rightarrow> fields \<Rightarrow> world \<Rightarrow> world" where
  "hset key m w = emit (HSet key m) (w\<lparr>hashes := (hashes w)(key := merge_fields (hashes w key) m)\<rparr>)"

definition hgetall :: "world \<Rightarrow> string \<Rightarrow> fields" where
  "hgetall w key = hashes w key"

definition lpush :: "string \<Rightarrow> world \<Rightarrow> world" where
  "lpush v w = emit (LPush ''processing_queue'' v) (w\<lparr>queue := v # queue w\<rparr>)"

text \<open>
  \<^verbatim>\<open>BRPOP processing_queue\<close> with a timeout: the rightmost element, removed, or
  \<^verbatim>\<open>None\<close> when the list stayed empty.
\<close>

definition brpop :: "world \<Rightarrow> string option \<times> world" where
  "brpop w =
     (if queue w = [] then (None, emit (BRPop ''processing_queue'' None) w)
      else (Some (last (queue w)),
            emit (BRPop ''processing_queue'' (Some (last (queue w)))) (w\<lparr>queue := butlast (queue w)\<rparr>)))"

definition job_key :: "string \<Rightarrow> string" where
  "job_key job_id = ''job:'' @ job_id"

definition field :: "world \<Rightarrow> string \<Rightarrow> string \<Rightarrow> string option" where
  "field w job_id f = map_of (hashes w (job_key job_id)) f"

subsection \<open>The worker\<close>

definition SERVICES :: "(string \<times> string) list" where
  "SERVICES =
     [(''document'', ''http://document-service:8000''),
      (''ocr'', ''http://ocr-service:8000''),
      (''nlp'', ''http://nlp-service:8000''),
      (''form'', ''http://form-service:8000'')]"

text \<open>
  \<open>call_service\<close>: any exception inside (an unknown service name, the remote call) is
  logged and turned into \<^verbatim>\<open>None\<close>; \<open>service_reply\<close> is the value of its
  \<^verbatim>\<open>try\<close>/\<^verbatim>\<open>except\<close>. One \<open>Call\<close> event stands for the whole synchronous call,
  with what it returned.
\<close>

definition service_reply :: "env \<Rightarrow> string \<Rightarrow> string \<Rightarrow> json" where
  "service_reply e service_name endpoint =
     (case map_of SERVICES service_name of
        None \<Rightarrow> JNull
      | Some base \<Rightarrow> (case remote e (base @ endpoint) of
                        Raises msg \<Rightarrow> JNull
                      | Returns j \<Rightarrow> j))"

definition call_service :: "env \<Rightarrow> string \<Rightarrow> string \<Rightarrow> world \<Rightarrow> json \<times> world" where
  "call_service e service_name endpoint w =
     (let r = service_reply e service_name endpoint
      in (r, emit (Call service_name endpoint r) w))"

definition update_job_status :: "env \<Rightarrow> string \<Rightarrow> string \<Rightarrow> int \<Rightarrow> world \<Rightarrow> world" where
  "update_job_status e job_id status progress w =
     hset (job_key job_id)
       [(''status'', status), (''progress'', py_str progress), (''updated_at'', now e w)] w"

record pipeline_result =
  res_job_id :: string
  res_patient_name :: string
  res_status :: string
  res_completed_at :: string

text \<open>The \<^verbatim>\<open>try\<close> block of \<open>process_patient_pipeline\<close>.\<close>

definition pipeline_try :: "env \<Rightarrow> string \<Rightarrow> string \<Rightarrow> world \<Rightarrow> (exn + pipeline_result) \<times> world" where
  "pipeline_try e job_id patient_name w0 =
     (let w1 = update_job_status e job_id ''processing'' 10 w0;
          (doc_response, w2) = call_service e ''document'' (''/analyze/'' @ patient_name) w1
      in if \<not> py_truthy doc_response then (Inl (Exception ''Document analysis failed''), w2)
      else
     (let w3 = update_job_status e job_id ''processing'' 25 w2;
          (ocr_response, w4) = call_service e ''ocr'' (''/extract/'' @ patient_name) w3
      in if \<not> py_truthy ocr_response then (Inl (Exception ''OCR processing failed''), w4)
      else
     (let w5 = update_job_status e job_id ''processing'' 50 w4;
          (nlp_response, w6) = call_service e ''nlp'' (''/analyze/'' @ patient_name) w5
      in if \<not> py_truthy nlp_response then (Inl (Exception ''NLP processing failed''), w6)
      else
     (let w7 = update_job_status e job_id ''processing'' 75 w6;
          (form_response, w8) = call_service e ''form'' (''/fill/'' @ patient_name) w7
      in if \<not> py_truthy form_response then (Inl (Exception ''Form filling failed''), w8)
      else
     (let w9 = update_job_status e job_id ''completed'' 100 w8
      in (Inr \<lparr>res_job_id = job_id, res_patient_name = patient_name,
               res_status = ''completed'', res_completed_at = now e w9\<rparr>, w9))))))"

text \<open>
  The task: on an exception the handler writes the failure fields and raises the
  exception again, so the task ends with it (\<open>Inl\<close>).
\<close>

definition process_patient_pipeline ::
    "env \<Rightarrow> string \<Rightarrow> string \<Rightarrow> world \<Rightarrow> (exn + pipeline_result) \<times> world" where
  "process_patient_pipeline e job_id patient_name w =
     (case pipeline_try e job_id patient_name w of
        (Inr r, w') \<Rightarrow> (Inr r, w')
      | (Inl ex, w') \<Rightarrow>
          (Inl ex,
           hset (job_key job_id)
             [(''status'', ''failed''), (''error'', str_exn ex), (''failed_at'', now e w')] w'))"

subsection \<open>The queue consumer\<close>

definition delay :: "string \<Rightarrow> string \<Rightarrow> world \<Rightarrow> world" where
  "delay job_id patient_name w =
     emit (Delay job_id patient_name) (w\<lparr>delayed := delayed w @ [(job_id, patient_name)]\<rparr>)"

text \<open>
  The \<^verbatim>\<open>try\<close> block of one turn of the loop. The worker's client returns bytes:
  the token and the patient name are decoded, which raises on bytes that are not
  UTF-8. Reading \<^verbatim>\<open>job_data[b'patient_name']\<close> from a record without that field
  raises KeyError.
\<close>

definition consume_try :: "world \<Rightarrow> (exn + unit) \<times> world" where
  "consume_try w =
     (case brpop w of
        (None, w1) \<Rightarrow> (Inr (), w1)
      | (Some token, w1) \<Rightarrow>
          (case bytes_decode token of
             Inl ex \<Rightarrow> (Inl ex, w1)
           | Inr job_id \<Rightarrow>
               (let job_data = hgetall w1 (job_key job_id)
                in if job_data \<noteq> [] then
                     (case map_of job_data ''patient_name'' of
                        None \<Rightarrow>
                          (Inl (KeyError (''b'' @ [CHR 0x27] @ ''patient_name'' @ [CHR 0x27])), w1)
                      | Some raw \<Rightarrow>
                          (case bytes_decode raw of
                             Inl ex \<Rightarrow> (Inl ex, w1)
                           | Inr patient_name \<Rightarrow> (Inr (), delay job_id patient_name w1)))
                   else (Inr (), w1))))"

text \<open>
  The names bound at module level in the worker: its imports and its own definitions.
  Using any other name (none of them is a builtin) raises NameError.
\<close>

definition module_globals :: "string list" where
  "module_globals =
     [''Celery'', ''httpx'', ''asyncio'', ''json'', ''sync_redis'', ''logging'', ''datetime'',
      ''logger'', ''celery_app'', ''redis_client'', ''SERVICES'', ''process_patient_pipeline'',
      ''call_service'', ''update_job_status'', ''consume_processing_queue'',
      ''setup_periodic_tasks'']"

definition lookup_global :: "string \<Rightarrow> exn + unit" where
  "lookup_global name = (if name \<in> set module_globals then Inr () else Inl (NameError name))"

text \<open>
  The handler logs the exception and evaluates \<^verbatim>\<open>time.sleep(5)\<close>, which first looks
  the name \<^verbatim>\<open>time\<close> up.
\<close>

definition consume_except :: "exn \<Rightarrow> world \<Rightarrow> (exn + unit) \<times> world" where
  "consume_except ex w =
     (case lookup_global ''time'' of
        Inl name_error \<Rightarrow> (Inl name_error, w)
      | Inr _ \<Rightarrow> (Inr (), w))"

definition consume_iteration :: "world \<Rightarrow> (exn + unit) \<times> world" where
  "consume_iteration w =
     (case consume_try w of
        (Inl ex, w') \<Rightarrow> consume_except ex w'
      | (Inr u, w') \<Rightarrow> (Inr u, w'))"

text \<open>
  \<^verbatim>\<open>while True\<close>: the loop never returns; it ends only with an exception that leaves
  the handler. \<open>None\<close>: still running after the given number of turns.
\<close>

fun consume_processing_queue :: "nat \<Rightarrow> world \<Rightarrow> (exn \<times> world) option" where
  "consume_processing_queue 0 w = None"
| "consume_processing_queue (Suc n) w =
     (case consume_iteration w of
        (Inl ex, w') \<Rightarrow> Some (ex, w')
      | (Inr u, w') \<Rightarrow> consume_processing_queue n w')"

subsection \<open>The gateway: job creation\<close>

record submit_response =
  sub_job_id :: string
  sub_patient_name :: string
  sub_status :: string
  sub_message :: string

text \<open>\<open>uuid\<close> is the value of \<^verbatim>\<open>str(uuid.uuid4())\<close> in this request.\<close>

definition process_patient :: "env \<Rightarrow> string \<Rightarrow> string \<Rightarrow> world \<Rightarrow> submit_response \<times> world" where
  "process_patient e uuid patient_name w =
     (let job_id = uuid;
          w1 = hset (job_key job_id)
                 [(''patient_name'', patient_name), (''status'', ''pending''),
                  (''created_at'', now e w), (''progress'', ''0'')] w;
          w2 = lpush job_id w1
      in (\<lparr>sub_job_id = job_id, sub_patient_name = patient_name,
           sub_status = ''submitted'', sub_message = ''Processing started''\<rparr>, w2))"

subsection \<open>Reading a run off the trace\<close>

text \<open>The effect of one traced event on the hashes, and of a list of them in order.\<close>

fun apply_event :: "event \<Rightarrow> (string \<Rightarrow> fields) \<Rightarrow> (string \<Rightarrow> fields)" where
  "apply_event (HSet key m) h = h(key := merge_fields (h key) m)"
| "apply_event ev h = h"

definition replay :: "event list \<Rightarrow> (string \<Rightarrow> fields) \<Rightarrow> (string \<Rightarrow> fields)" where
  "replay evs h = foldl (\<lambda>acc ev. apply_event ev acc) h evs"

text \<open>The hashes at every moment of a run: before it and after each of its events.\<close>

fun states :: "(string \<Rightarrow> fields) \<Rightarrow> event list \<Rightarrow> (string \<Rightarrow> fields) list" where
  "states h [] = [h]"
| "states h (ev # evs) = h # states (apply_event ev h) evs"


text \<open>The events a step added to the trace.\<close>

definition new_events :: "world \<Rightarrow> world \<Rightarrow> event list" where
  "new_events w w' = drop (length (trace w)) (trace w')"

definition run_events :: "env \<Rightarrow> string \<Rightarrow> string \<Rightarrow> world \<Rightarrow> event list" where
  "run_events e job_id patient_name w =
     new_events w (snd (process_patient_pipeline e job_id patient_name w))"

text \<open>The stage calls among some events, and the progress values written by them.\<close>

fun calls_of :: "event list \<Rightarrow> (string \<times> string) list" where
  "calls_of [] = []"
| "calls_of (Call service_name endpoint r # evs) = (service_name, endpoint) # calls_of evs"
| "calls_of (ev # evs) = calls_of evs"

fun progress_written :: "event list \<Rightarrow> int list" where
  "progress_written [] = []"
| "progress_written (HSet key m # evs) =
     (case map_of m ''progress'' of
        None \<Rightarrow> progress_written evs
      | Some s \<Rightarrow> (case py_int s of None \<Rightarrow> progress_written evs
                                    | Some n \<Rightarrow> n # progress_written evs))"
| "progress_written (ev # evs) = progress_written evs"

text \<open>
  Whether a stage answers with success, as the executor tests it: \<open>call_service\<close>
  returned a value that is true in \<^verbatim>\<open>if not response\<close>. A stage that raises, and one
  that returns an empty body such as \<^verbatim>\<open>{}\<close>, both count as failed.
\<close>

definition stage_ok :: "env \<Rightarrow> string \<Rightarrow> string \<Rightarrow> bool" where
  "stage_ok e service_name endpoint = py_truthy (service_reply e service_name endpoint)"

definition doc_ok :: "env \<Rightarrow> string \<Rightarrow> bool" where
  "doc_ok e patient_name = stage_ok e ''document'' (''/analyze/'' @ patient_name)"

definition ocr_ok :: "env \<Rightarrow> string \<Rightarrow> bool" where
  "ocr_ok e patient_name = stage_ok e ''ocr'' (''/extract/'' @ patient_name)"

definition nlp_ok :: "env \<Rightarrow> string \<Rightarrow> bool" where
  "nlp_ok e patient_name = stage_ok e ''nlp'' (''/analyze/'' @ patient_name)"

definition form_ok :: "env \<Rightarrow> string \<Rightarrow> bool" where
  "form_ok e patient_name = stage_ok e ''form'' (''/fill/'' @ patient_name)"

text \<open>The shapes of the events a run writes; \<open>k\<close> counts the run's earlier events.\<close>

definition status_write :: "env \<Rightarrow> world \<Rightarrow> string \<Rightarrow> string \<Rightarrow> string \<Rightarrow> nat \<Rightarrow> event" where
  "status_write e w job_id status progress k =
     HSet (job_key job_id)
       [(''status'', status), (''progress'', progress),
        (''updated_at'', utcnow e (length (trace w) + k))]"

definition failure_write :: "env \<Rightarrow> world \<Rightarrow> string \<Rightarrow> string \<Rightarrow> nat \<Rightarrow> event" where
  "failure_write e w job_id msg k =
     HSet (job_key job_id)
       [(''status'', ''failed''), (''error'', msg),
        (''failed_at'', utcnow e (length (trace w) + k))]"

definition stage_call :: "env \<Rightarrow> string \<Rightarrow> string \<Rightarrow> event" where
  "stage_call e service_name endpoint =
     Call service_name endpoint (service_reply e service_name endpoint)"

text \<open>Predicates on a job record.\<close>

definition terminal :: "fields \<Rightarrow> bool" where
  "terminal fs = (map_of fs ''status'' = Some ''completed'' \<or> map_of fs ''status'' = Some ''failed'')"



text \<open>
  The Celery worker executes the pending task at position \<open>i\<close> of those handed over by
  \<^verbatim>\<open>.delay\<close>; with no such task nothing happens.
\<close>

definition work :: "env \<Rightarrow> nat \<Rightarrow> world \<Rightarrow> world" where
  "work e i w =
     (if i < length (delayed w) then
        (case delayed w ! i of
           (job_id, patient_name) \<Rightarrow>
             snd (process_patient_pipeline e job_id patient_name
                    (w\<lparr>delayed := take i (delayed w) @ drop (Suc i) (delayed w)\<rparr>)))
      else w)"

text \<open>
  The operations of the core on the shared store: a creation request, one turn of the
  consumer loop, the execution of one dispatched pipeline task. Each is taken as a
  whole: the writes of two runs are not interleaved. A run writes under the key of its
  own job only, so for the record of one job this loses nothing as long as no two runs
  of that job overlap.
\<close>

datatype op = Create env string string | Consume | Work env nat

fun apply_op :: "op \<Rightarrow> world \<Rightarrow> world" where
  "apply_op (Create e uuid patient_name) w = snd (process_patient e uuid patient_name w)"
| "apply_op Consume w = snd (consume_iteration w)"
| "apply_op (Work e i) w = work e i w"

definition apply_ops :: "op list \<Rightarrow> world \<Rightarrow> world" where
  "apply_ops ops w = foldl (\<lambda>acc x. apply_op x acc) w ops"

text \<open>Whether a turn of the consumer in this world dispatches a run for the job.\<close>

definition dispatches :: "string \<Rightarrow> world \<Rightarrow> bool" where
  "dispatches job_id w =
     list_ex (\<lambda>task. fst task = job_id)
       (drop (length (delayed w)) (delayed (snd (consume_iteration w))))"

text \<open>
  Whether an operation, applied in this world, concerns the job: it creates a job
  under that identifier, dispatches a run for it, or executes a run for it.
\<close>

fun targets :: "string \<Rightarrow> op \<Rightarrow> world \<Rightarrow> bool" where
  "targets job_id (Create e uuid patient_name) w = (uuid = job_id)"
| "targets job_id Consume w = dispatches job_id w"
| "targets job_id (Work e i) w = (i < length (delayed w) \<and> fst (delayed w ! i) = job_id)"

text \<open>No operation of the sequence, each taken in the world it is applied in, concerns the job.\<close>

fun untouched :: "string \<Rightarrow> op list \<Rightarrow> world \<Rightarrow> bool" where
  "untouched job_id [] w = True"
| "untouched job_id (x # xs) w = (\<not> targets job_id x w \<and> untouched job_id xs (apply_op x w))"


text \<open>The stage calls of a complete run and the progress values of its writes.\<close>

definition stage_sequence :: "string \<Rightarrow> (string \<times> string) list" where
  "stage_sequence patient_name =
     [(''document'', ''/analyze/'' @ patient_name), (''ocr'', ''/extract/'' @ patient_name),
      (''nlp'', ''/analyze/'' @ patient_name), (''form'', ''/fill/'' @ patient_name)]"

definition checkpoints :: "int list" where
  "checkpoints = [10, 25, 50, 75, 100]"

subsection \<open>Scenarios\<close>

definition empty_world :: world where
  "empty_world = \<lparr>hashes = (\<lambda>key. []), queue = [], delayed = [], trace = []\<rparr>"

definition all_succeed :: env where
  "all_succeed =
     \<lparr>remote = (\<lambda>url. Returns (JObj [(''status'', JStr ''success'')])),
      utcnow = (\<lambda>n. ''2024-05-01T10:00:00'')\<rparr>"

definition ocr_unavailable :: env where
  "ocr_unavailable =
     \<lparr>remote = (\<lambda>url. if url = ''http://ocr-service:8000/extract/Jane Doe''
                         then Raises ''engine unavailable''
                         else Returns (JObj [(''status'', JStr ''success'')])),
      utcnow = (\<lambda>n. ''2024-05-01T10:00:00'')\<rparr>"

definition document_down :: env where
  "document_down =
     \<lparr>remote = (\<lambda>url. if url = ''http://document-service:8000/analyze/Jane Doe''
                         then Raises ''connection refused''
                         else Returns (JObj [(''status'', JStr ''success'')])),
      utcnow = (\<lambda>n. ''2024-05-01T11:00:00'')\<rparr>"

definition nlp_empty :: env where
  "nlp_empty =
     \<lparr>remote = (\<lambda>url. if url = ''http://nlp-service:8000/analyze/Jane Doe''
                         then Returns (JObj [])
                         else Returns (JObj [(''status'', JStr ''success'')])),
      utcnow = (\<lambda>n. ''2024-05-01T12:00:00'')\<rparr>"

definition form_timeout :: env where
  "form_timeout =
     \<lparr>remote = (\<lambda>url. if url = ''http://form-service:8000/fill/Jane Doe''
                         then Raises ''timed out''
                         else Returns (JObj [(''status'', JStr ''success'')])),
      utcnow = (\<lambda>n. ''2024-05-01T13:00:00'')\<rparr>"

definition created_world :: world where
  "created_world = snd (process_patient all_succeed ''j1'' ''Jane Doe'' empty_world)"

definition completed_world :: world where
  "completed_world = snd (process_patient_pipeline all_succeed ''j1'' ''Jane Doe'' created_world)"


definition orphan_record_world :: world where
  "orphan_record_world =
     \<lparr>hashes = (\<lambda>key. if key = ''job:j9''
                        then [(''status'', ''processing''), (''progress'', ''10'')] else []),
      queue = [''j9''], delayed = [], trace = []\<rparr>"


text \<open>
  The job j1 created, its token consumed and its run executed with every stage
  succeeding, from the empty world.
\<close>

definition served_world :: world where
  "served_world =
     apply_ops [Create all_succeed ''j1'' ''Jane Doe'', Consume, Work all_succeed 0] empty_world"

text \<open>The world after a creation and the consumer turn that dispatches the new job.\<close>

definition dispatched_world :: "env \<Rightarrow> string \<Rightarrow> string \<Rightarrow> world \<Rightarrow> world" where
  "dispatched_world e u p w =
     (snd (process_patient e u p w))
       \<lparr>queue := [], delayed := [(u, p)],
         trace := trace (snd (process_patient e u p w)) @
                  [BRPop ''processing_queue'' (Some u), Delay u p]\<rparr>"


section \<open>Basic facts\<close>

lemma py_str_consts:
  "py_str 10 = ''10''" "py_str 25 = ''25''" "py_str 50 = ''50''"
  "py_str 75 = ''75''" "py_str 100 = ''100''"
  by (simp_all add: py_str_def str_nat.simps digit_char_def)

lemma py_int_consts:
  "py_int ''0'' = Some 0" "py_int ''10'' = Some 10" "py_int ''25'' = Some 25"
  "py_int ''50'' = Some 50" "py_int ''75'' = Some 75" "py_int ''100'' = Some 100"
  by (simp_all add: digit_val_def)

lemma hset_simps:
  "trace (hset k m w) = trace w @ [HSet k m]"
  "hashes (hset k m w) = (hashes w)(k := merge_fields (hashes w k) m)"
  "queue (hset k m w) = queue w"
  "delayed (hset k m w) = delayed w"
  by (simp_all add: hset_def emit_def)

lemma update_job_status_simps:
  "trace (update_job_status e j st pr w) =
     trace w @ [HSet (job_key j) [(''status'', st), (''progress'', py_str pr),
                                  (''updated_at'', utcnow e (length (trace w)))]]"
  "hashes (update_job_status e j st pr w) =
     (hashes w)(job_key j := merge_fields (hashes w (job_key j))
        [(''status'', st), (''progress'', py_str pr),
         (''updated_at'', utcnow e (length (trace w)))])"
  "queue (update_job_status e j st pr w) = queue w"
  "delayed (update_job_status e j st pr w) = delayed w"
  by (simp_all add: update_job_status_def hset_simps now_def)

lemma call_service_simps:
  "fst (call_service e s ep w) = service_reply e s ep"
  "trace (snd (call_service e s ep w)) = trace w @ [Call s ep (service_reply e s ep)]"
  "hashes (snd (call_service e s ep w)) = hashes w"
  "queue (snd (call_service e s ep w)) = queue w"
  "delayed (snd (call_service e s ep w)) = delayed w"
  by (simp_all add: call_service_def emit_def Let_def)

lemmas ok_defs = doc_ok_def ocr_ok_def nlp_ok_def form_ok_def stage_ok_def

lemmas run_unfold =
  process_patient_pipeline_def pipeline_try_def Let_def split_beta call_service_simps
  update_job_status_simps hset_simps now_def py_str_consts status_write_def
  failure_write_def stage_call_def eval_nat_numeral

subsection \<open>The five courses of a run\<close>

lemma run_doc_fails:
  assumes "\<not> doc_ok e p"
  shows "fst (process_patient_pipeline e j p w) = Inl (Exception ''Document analysis failed'')"
    and "trace (snd (process_patient_pipeline e j p w)) = trace w @
     [status_write e w j ''processing'' ''10'' 0,
      stage_call e ''document'' (''/analyze/'' @ p),
      failure_write e w j ''Document analysis failed'' 2]"
  using assms by (simp_all add: run_unfold ok_defs)

lemma run_ocr_fails:
  assumes "doc_ok e p" "\<not> ocr_ok e p"
  shows "fst (process_patient_pipeline e j p w) = Inl (Exception ''OCR processing failed'')"
    and "trace (snd (process_patient_pipeline e j p w)) = trace w @
     [status_write e w j ''processing'' ''10'' 0,
      stage_call e ''document'' (''/analyze/'' @ p),
      status_write e w j ''processing'' ''25'' 2,
      stage_call e ''ocr'' (''/extract/'' @ p),
      failure_write e w j ''OCR processing failed'' 4]"
  using assms by (simp_all add: run_unfold ok_defs)

lemma run_nlp_fails:
  assumes "doc_ok e p" "ocr_ok e p" "\<not> nlp_ok e p"
  shows "fst (process_patient_pipeline e j p w) = Inl (Exception ''NLP processing failed'')"
    and "trace (snd (process_patient_pipeline e j p w)) = trace w @
     [status_write e w j ''processing'' ''10'' 0,
      stage_call e ''document'' (''/analyze/'' @ p),
      status_write e w j ''processing'' ''25'' 2,
      stage_call e ''ocr'' (''/extract/'' @ p),
      status_write e w j ''processing'' ''50'' 4,
      stage_call e ''nlp'' (''/analyze/'' @ p),
      failure_write e w j ''NLP processing failed'' 6]"
  using assms by (simp_all add: run_unfold ok_defs)

lemma run_form_fails:
  assumes "doc_ok e p" "ocr_ok e p" "nlp_ok e p" "\<not> form_ok e p"
  shows "fst (process_patient_pipeline e j p w) = Inl (Exception ''Form filling failed'')"
    and "trace (snd (process_patient_pipeline e j p w)) = trace w @
     [status_write e w j ''processing'' ''10'' 0,
      stage_call e ''document'' (''/analyze/'' @ p),
      status_write e w j ''processing'' ''25'' 2,
      stage_call e ''ocr'' (''/extract/'' @ p),
      status_write e w j ''processing'' ''50'' 4,
      stage_call e ''nlp'' (''/analyze/'' @ p),
      status_write e w j ''processing'' ''75'' 6,
      stage_call e ''form'' (''/fill/'' @ p),
      failure_write e w j ''Form filling failed'' 8]"
  using assms by (simp_all add: run_unfold ok_defs)

lemma run_success:
  assumes "doc_ok e p" "ocr_ok e p" "nlp_ok e p" "form_ok e p"
  shows "\<exists>r. fst (process_patient_pipeline e j p w) = Inr r"
    and "trace (snd (process_patient_pipeline e j p w)) = trace w @
     [status_write e w j ''processing'' ''10'' 0,
      stage_call e ''document'' (''/analyze/'' @ p),
      status_write e w j ''processing'' ''25'' 2,
      stage_call e ''ocr'' (''/extract/'' @ p),
      status_write e w j ''processing'' ''50'' 4,
      stage_call e ''nlp'' (''/analyze/'' @ p),
      status_write e w j ''processing'' ''75'' 6,
      stage_call e ''form'' (''/fill/'' @ p),
      status_write e w j ''completed'' ''100'' 8]"
  using assms by (simp_all add: run_unfold ok_defs)

lemma run_cases [case_names doc_fails ocr_fails nlp_fails form_fails success]:
  assumes "\<not> doc_ok e p \<Longrightarrow> P"
    and "\<lbrakk>doc_ok e p; \<not> ocr_ok e p\<rbrakk> \<Longrightarrow> P"
    and "\<lbrakk>doc_ok e p; ocr_ok e p; \<not> nlp_ok e p\<rbrakk> \<Longrightarrow> P"
    and "\<lbrakk>doc_ok e p; ocr_ok e p; nlp_ok e p; \<not> form_ok e p\<rbrakk> \<Longrightarrow> P"
    and "\<lbrakk>doc_ok e p; ocr_ok e p; nlp_ok e p; form_ok e p\<rbrakk> \<Longrightarrow> P"
  shows P
  using assms by blast

lemma run_events_doc_fails:
  assumes "\<not> doc_ok e p"
  shows "run_events e j p w =
     [status_write e w j ''processing'' ''10'' 0,
      stage_call e ''document'' (''/analyze/'' @ p),
      failure_write e w j ''Document analysis failed'' 2]"
  by (simp add: run_events_def new_events_def run_doc_fails(2)[OF assms])

lemma run_events_ocr_fails:
  assumes "doc_ok e p" "\<not> ocr_ok e p"
  shows "run_events e j p w =
     [status_write e w j ''processing'' ''10'' 0,
      stage_call e ''document'' (''/analyze/'' @ p),
      status_write e w j ''processing'' ''25'' 2,
      stage_call e ''ocr'' (''/extract/'' @ p),
      failure_write e w j ''OCR processing failed'' 4]"
  by (simp add: run_events_def new_events_def run_ocr_fails(2)[OF assms])

lemma run_events_nlp_fails:
  assumes "doc_ok e p" "ocr_ok e p" "\<not> nlp_ok e p"
  shows "run_events e j p w =
     [status_write e w j ''processing'' ''10'' 0,
      stage_call e ''document'' (''/analyze/'' @ p),
      status_write e w j ''processing'' ''25'' 2,
      stage_call e ''ocr'' (''/extract/'' @ p),
      status_write e w j ''processing'' ''50'' 4,
      stage_call e ''nlp'' (''/analyze/'' @ p),
      failure_write e w j ''NLP processing failed'' 6]"
  by (simp add: run_events_def new_events_def run_nlp_fails(2)[OF assms])

lemma run_events_form_fails:
  assumes "doc_ok e p" "ocr_ok e p" "nlp_ok e p" "\<not> form_ok e p"
  shows "run_events e j p w =
     [status_write e w j ''processing'' ''10'' 0,
      stage_call e ''document'' (''/analyze/'' @ p),
      status_write e w j ''processing'' ''25'' 2,
      stage_call e ''ocr'' (''/extract/'' @ p),
      status_write e w j ''processing'' ''50'' 4,
      stage_call e ''nlp'' (''/analyze/'' @ p),
      status_write e w j ''processing'' ''75'' 6,
      stage_call e ''form'' (''/fill/'' @ p),
      failure_write e w j ''Form filling failed'' 8]"
  by (simp add: run_events_def new_events_def run_form_fails(2)[OF assms])

lemma run_events_success:
  assumes "doc_ok e p" "ocr_ok e p" "nlp_ok e p" "form_ok e p"
  shows "run_events e j p w =
     [status_write e w j ''processing'' ''10'' 0,
      stage_call e ''document'' (''/analyze/'' @ p),
      status_write e w j ''processing'' ''25'' 2,
      stage_call e ''ocr'' (''/extract/'' @ p),
      status_write e w j ''processing'' ''50'' 4,
      stage_call e ''nlp'' (''/analyze/'' @ p),
      status_write e w j ''processing'' ''75'' 6,
      stage_call e ''form'' (''/fill/'' @ p),
      status_write e w j ''completed'' ''100'' 8]"
  by (simp add: run_events_def new_events_def run_success(2)[OF assms])

subsection \<open>The trace determines the store\<close>

lemma replay_simps:
  "replay [] h = h"
  "replay (ev # evs) h = replay evs (apply_event ev h)"
  by (simp_all add: replay_def)


lemma states_not_Nil [simp]: "states h evs \<noteq> []"
  by (cases evs) simp_all



lemma run_hashes:
  "hashes (snd (process_patient_pipeline e j p w)) = replay (run_events e j p w) (hashes w)"
proof (cases rule: run_cases [of e p])
  case doc_fails
  then show ?thesis unfolding run_events_doc_fails [OF doc_fails]
    by (simp add: run_unfold ok_defs replay_simps)
next
  case ocr_fails
  then show ?thesis unfolding run_events_ocr_fails [OF ocr_fails]
    by (simp add: run_unfold ok_defs replay_simps)
next
  case nlp_fails
  then show ?thesis unfolding run_events_nlp_fails [OF nlp_fails]
    by (simp add: run_unfold ok_defs replay_simps)
next
  case form_fails
  then show ?thesis unfolding run_events_form_fails [OF form_fails]
    by (simp add: run_unfold ok_defs replay_simps)
next
  case success
  then show ?thesis unfolding run_events_success [OF success]
    by (simp add: run_unfold ok_defs replay_simps)
qed

lemma map_of_merge3:
  "map_of (merge_fields h [(a, x), (b, y), (c, z)]) = (map_of h)(a \<mapsto> x, b \<mapsto> y, c \<mapsto> z)"
  by (simp add: merge_fields_def update_conv')

lemma map_of_merge4:
  "map_of (merge_fields h [(a, x), (b, y), (c, z), (d, u)]) =
     (map_of h)(a \<mapsto> x, b \<mapsto> y, c \<mapsto> z, d \<mapsto> u)"
  by (simp add: merge_fields_def update_conv')

lemma job_key_inj [simp]: "(job_key a = job_key b) = (a = b)"
  by (simp add: job_key_def)

lemmas rec_simps =
  field_def replay_simps status_write_def failure_write_def stage_call_def map_of_merge3

lemma all_succeed_ok:
  "doc_ok all_succeed p" "ocr_ok all_succeed p" "nlp_ok all_succeed p" "form_ok all_succeed p"
  by (simp_all add: ok_defs service_reply_def SERVICES_def all_succeed_def)

lemmas ev_defs = status_write_def failure_write_def stage_call_def

lemma document_down_ok: "\<not> doc_ok document_down ''Jane Doe''"
  by (simp add: ok_defs service_reply_def SERVICES_def document_down_def)

lemma nlp_empty_ok:
  "doc_ok nlp_empty ''Jane Doe''" "ocr_ok nlp_empty ''Jane Doe''"
  "\<not> nlp_ok nlp_empty ''Jane Doe''"
  by (simp_all add: ok_defs service_reply_def SERVICES_def nlp_empty_def)

lemma form_timeout_ok:
  "doc_ok form_timeout ''Jane Doe''" "ocr_ok form_timeout ''Jane Doe''"
  "nlp_ok form_timeout ''Jane Doe''" "\<not> form_ok form_timeout ''Jane Doe''"
  by (simp_all add: ok_defs service_reply_def SERVICES_def form_timeout_def)

lemma distinct_stage_names: "distinct (map fst (take n (stage_sequence p)))"
proof -
  have "distinct (map fst (stage_sequence p))" by (simp add: stage_sequence_def)
  then show ?thesis by (simp add: take_map [symmetric] distinct_take)
qed

lemma calls_summary:
  assumes "calls_of (run_events e j p w) = take k (stage_sequence p)" "1 \<le> k" "k \<le> 4"
  shows "(\<exists>n. 1 \<le> n \<and> n \<le> 4 \<and> calls_of (run_events e j p w) = take n (stage_sequence p))
         \<and> distinct (map fst (calls_of (run_events e j p w)))"
  using assms distinct_stage_names [of k p] by auto

lemma sorted_take_checkpoints: "sorted (take n checkpoints)"
proof -
  have "sorted checkpoints" by (simp add: checkpoints_def)
  then show ?thesis by (rule sorted_wrt_take)
qed

lemma progress_summary:
  assumes "progress_written (run_events e j p w) = take k checkpoints" "1 \<le> k"
  shows "sorted (progress_written (run_events e j p w))
     \<and> (\<exists>n. 1 \<le> n \<and> progress_written (run_events e j p w) = take n checkpoints)"
  using assms sorted_take_checkpoints [of k] by auto

section \<open>The claims\<close>

text \<open>
  C1. In every run the first event is the write of status processing with progress 10,
  before any stage call. The stages are then called in the order document, ocr, nlp,
  form, and progress 25, 50, 75 is written right after the first, second and third
  stage that answered with success. When all four succeed the run consists of exactly
  these nine events, its last write sets status completed with progress 100, and the
  record then reads completed and 100.
\<close>

theorem pipeline_checkpoints_in_order:
  "take 1 (run_events e j p w) = [status_write e w j ''processing'' ''10'' 0]
   \<and> (doc_ok e p \<longrightarrow>
        take 3 (run_events e j p w) =
          [status_write e w j ''processing'' ''10'' 0,
           stage_call e ''document'' (''/analyze/'' @ p),
           status_write e w j ''processing'' ''25'' 2])
   \<and> (doc_ok e p \<and> ocr_ok e p \<longrightarrow>
        take 5 (run_events e j p w) =
          [status_write e w j ''processing'' ''10'' 0,
           stage_call e ''document'' (''/analyze/'' @ p),
           status_write e w j ''processing'' ''25'' 2,
           stage_call e ''ocr'' (''/extract/'' @ p),
           status_write e w j ''processing'' ''50'' 4])
   \<and> (doc_ok e p \<and> ocr_ok e p \<and> nlp_ok e p \<longrightarrow>
        take 7 (run_events e j p w) =
          [status_write e w j ''processing'' ''10'' 0,
           stage_call e ''document'' (''/analyze/'' @ p),
           status_write e w j ''processing'' ''25'' 2,
           stage_call e ''ocr'' (''/extract/'' @ p),
           status_write e w j ''processing'' ''50'' 4,
           stage_call e ''nlp'' (''/analyze/'' @ p),
           status_write e w j ''processing'' ''75'' 6])
   \<and> (doc_ok e p \<and> ocr_ok e p \<and> nlp_ok e p \<and> form_ok e p \<longrightarrow>
        run_events e j p w =
          [status_write e w j ''processing'' ''10'' 0,
           stage_call e ''document'' (''/analyze/'' @ p),
           status_write e w j ''processing'' ''25'' 2,
           stage_call e ''ocr'' (''/extract/'' @ p),
           status_write e w j ''processing'' ''50'' 4,
           stage_call e ''nlp'' (''/analyze/'' @ p),
           status_write e w j ''processing'' ''75'' 6,
           stage_call e ''form'' (''/fill/'' @ p),
           status_write e w j ''completed'' ''100'' 8]
        \<and> field (snd (process_patient_pipeline e j p w)) j ''status'' = Some ''completed''
        \<and> field (snd (process_patient_pipeline e j p w)) j ''progress'' = Some ''100'')"
proof (cases rule: run_cases [of e p])
  case doc_fails
  then show ?thesis by (simp add: run_events_doc_fails)
next
  case ocr_fails
  then show ?thesis by (simp add: run_events_ocr_fails)
next
  case nlp_fails
  then show ?thesis by (simp add: run_events_nlp_fails)
next
  case form_fails
  then show ?thesis by (simp add: run_events_form_fails)
next
  case success
  then show ?thesis by (simp add: run_events_success run_hashes rec_simps)
qed

theorem pipeline_checkpoints_in_order_witness:
  "doc_ok all_succeed ''Jane Doe'' \<and> ocr_ok all_succeed ''Jane Doe''
   \<and> nlp_ok all_succeed ''Jane Doe'' \<and> form_ok all_succeed ''Jane Doe''
   \<and> calls_of (run_events all_succeed ''j1'' ''Jane Doe'' empty_world) =
       [(''document'', ''/analyze/Jane Doe''), (''ocr'', ''/extract/Jane Doe''),
        (''nlp'', ''/analyze/Jane Doe''), (''form'', ''/fill/Jane Doe'')]
   \<and> progress_written (run_events all_succeed ''j1'' ''Jane Doe'' empty_world) =
       [10, 25, 50, 75, 100]
   \<and> field (snd (process_patient_pipeline all_succeed ''j1'' ''Jane Doe'' empty_world))
        ''j1'' ''status'' = Some ''completed''"
  using pipeline_checkpoints_in_order
          [where e = all_succeed and j = "''j1''" and p = "''Jane Doe''" and w = empty_world]
        all_succeed_ok [of "''Jane Doe''"]
  by (simp add: status_write_def stage_call_def digit_val_def)

lemma ocr_unavailable_ok:
  "doc_ok ocr_unavailable ''Jane Doe''" "\<not> ocr_ok ocr_unavailable ''Jane Doe''"
  by (simp_all add: ok_defs service_reply_def SERVICES_def ocr_unavailable_def)

text \<open>
  C2, as stated, fails. The job is created for Jane Doe, the document stage succeeds
  and the remote call of the ocr stage raises with the message "engine unavailable".
  The record then holds the executor's own message "OCR processing failed", not the
  message of the stage.
\<close>

theorem stage_message_not_recorded:
  "remote ocr_unavailable (''http://ocr-service:8000'' @ ''/extract/'' @ ''Jane Doe'') =
     Raises ''engine unavailable''
   \<and> doc_ok ocr_unavailable ''Jane Doe''
   \<and> field (snd (process_patient_pipeline ocr_unavailable ''j1'' ''Jane Doe''
                  (snd (process_patient all_succeed ''j1'' ''Jane Doe'' empty_world))))
        ''j1'' ''error'' = Some ''OCR processing failed''
   \<and> field (snd (process_patient_pipeline ocr_unavailable ''j1'' ''Jane Doe''
                  (snd (process_patient all_succeed ''j1'' ''Jane Doe'' empty_world))))
        ''j1'' ''error'' \<noteq> Some ''engine unavailable''"
  by (simp add: run_hashes run_events_ocr_fails ocr_unavailable_ok rec_simps)
     (simp add: ocr_unavailable_def)

text \<open>
  C2, amended. When a stage fails, the error string recorded on the job is the fixed
  message the executor raises for that stage: "Document analysis failed", "OCR
  processing failed", "NLP processing failed" or "Form filling failed", whatever
  message the stage itself produced (the stage adapter only logs that one).
\<close>

theorem fixed_message_recorded:
  "(\<not> doc_ok e p \<longrightarrow>
      field (snd (process_patient_pipeline e j p w)) j ''error'' =
        Some ''Document analysis failed'')
   \<and> (doc_ok e p \<and> \<not> ocr_ok e p \<longrightarrow>
      field (snd (process_patient_pipeline e j p w)) j ''error'' =
        Some ''OCR processing failed'')
   \<and> (doc_ok e p \<and> ocr_ok e p \<and> \<not> nlp_ok e p \<longrightarrow>
      field (snd (process_patient_pipeline e j p w)) j ''error'' =
        Some ''NLP processing failed'')
   \<and> (doc_ok e p \<and> ocr_ok e p \<and> nlp_ok e p \<and> \<not> form_ok e p \<longrightarrow>
      field (snd (process_patient_pipeline e j p w)) j ''error'' =
        Some ''Form filling failed'')"
  by (simp add: run_hashes run_events_doc_fails run_events_ocr_fails run_events_nlp_fails
        run_events_form_fails rec_simps)

theorem fixed_message_recorded_witness:
  "doc_ok ocr_unavailable ''Jane Doe'' \<and> \<not> ocr_ok ocr_unavailable ''Jane Doe''
   \<and> remote ocr_unavailable ''http://ocr-service:8000/extract/Jane Doe'' =
       Raises ''engine unavailable''
   \<and> field (snd (process_patient_pipeline ocr_unavailable ''j1'' ''Jane Doe'' empty_world))
        ''j1'' ''error'' = Some ''OCR processing failed''"
  using fixed_message_recorded
          [where e = ocr_unavailable and j = "''j1''" and p = "''Jane Doe''" and w = empty_world]
        ocr_unavailable_ok
  by (simp add: ocr_unavailable_def)

text \<open>
  C4. The stage calls of a run are an initial part of the sequence document, ocr, nlp,
  form, in that order, each call one completed event of the trace; no stage is called
  twice. A run whose k-th stage is the first to fail makes exactly the first k calls:
  nothing is called after the failure and the failed stage is not called again.
\<close>

theorem stages_sequential_no_retry:
  "(\<exists>n. 1 \<le> n \<and> n \<le> 4 \<and> calls_of (run_events e j p w) = take n (stage_sequence p))
   \<and> distinct (map fst (calls_of (run_events e j p w)))
   \<and> (\<not> doc_ok e p \<longrightarrow> calls_of (run_events e j p w) = take 1 (stage_sequence p))
   \<and> (doc_ok e p \<and> \<not> ocr_ok e p \<longrightarrow> calls_of (run_events e j p w) = take 2 (stage_sequence p))
   \<and> (doc_ok e p \<and> ocr_ok e p \<and> \<not> nlp_ok e p \<longrightarrow> calls_of (run_events e j p w) = take 3 (stage_sequence p))
   \<and> (doc_ok e p \<and> ocr_ok e p \<and> nlp_ok e p \<longrightarrow> calls_of (run_events e j p w) = take 4 (stage_sequence p))"
proof (cases rule: run_cases [of e p])
  case doc_fails
  have c: "calls_of (run_events e j p w) = take 1 (stage_sequence p)"
    by (simp add: run_events_doc_fails doc_fails ev_defs stage_sequence_def)
  from calls_summary [OF c] c doc_fails show ?thesis by simp
next
  case ocr_fails
  have c: "calls_of (run_events e j p w) = take 2 (stage_sequence p)"
    by (simp add: run_events_ocr_fails ocr_fails ev_defs stage_sequence_def)
  from calls_summary [OF c] c ocr_fails show ?thesis by simp
next
  case nlp_fails
  have c: "calls_of (run_events e j p w) = take 3 (stage_sequence p)"
    by (simp add: run_events_nlp_fails nlp_fails ev_defs stage_sequence_def)
  from calls_summary [OF c] c nlp_fails show ?thesis by simp
next
  case form_fails
  have c: "calls_of (run_events e j p w) = take 4 (stage_sequence p)"
    by (simp add: run_events_form_fails form_fails ev_defs stage_sequence_def)
  from calls_summary [OF c] c form_fails show ?thesis by simp
next
  case success
  have c: "calls_of (run_events e j p w) = take 4 (stage_sequence p)"
    by (simp add: run_events_success success ev_defs stage_sequence_def)
  from calls_summary [OF c] c success show ?thesis by simp
qed

theorem stages_sequential_no_retry_witness:
  "\<not> doc_ok document_down ''Jane Doe''
   \<and> calls_of (run_events document_down ''j1'' ''Jane Doe'' empty_world) = [(''document'', ''/analyze/Jane Doe'')]
   \<and> doc_ok ocr_unavailable ''Jane Doe'' \<and> \<not> ocr_ok ocr_unavailable ''Jane Doe''
   \<and> calls_of (run_events ocr_unavailable ''j1'' ''Jane Doe'' empty_world) = [(''document'', ''/analyze/Jane Doe''), (''ocr'', ''/extract/Jane Doe'')]
   \<and> doc_ok nlp_empty ''Jane Doe'' \<and> ocr_ok nlp_empty ''Jane Doe'' \<and> \<not> nlp_ok nlp_empty ''Jane Doe''
   \<and> calls_of (run_events nlp_empty ''j1'' ''Jane Doe'' empty_world) = [(''document'', ''/analyze/Jane Doe''), (''ocr'', ''/extract/Jane Doe''), (''nlp'', ''/analyze/Jane Doe'')]
   \<and> doc_ok all_succeed ''Jane Doe'' \<and> ocr_ok all_succeed ''Jane Doe'' \<and> nlp_ok all_succeed ''Jane Doe''
   \<and> calls_of (run_events all_succeed ''j1'' ''Jane Doe'' empty_world) = [(''document'', ''/analyze/Jane Doe''), (''ocr'', ''/extract/Jane Doe''), (''nlp'', ''/analyze/Jane Doe''), (''form'', ''/fill/Jane Doe'')]"
  using stages_sequential_no_retry
          [where e = document_down and j = "''j1''" and p = "''Jane Doe''" and w = empty_world]
        stages_sequential_no_retry
          [where e = ocr_unavailable and j = "''j1''" and p = "''Jane Doe''" and w = empty_world]
        stages_sequential_no_retry
          [where e = nlp_empty and j = "''j1''" and p = "''Jane Doe''" and w = empty_world]
        stages_sequential_no_retry
          [where e = all_succeed and j = "''j1''" and p = "''Jane Doe''" and w = empty_world]
        document_down_ok ocr_unavailable_ok nlp_empty_ok all_succeed_ok [of "''Jane Doe''"]
  by (simp add: stage_sequence_def)

text \<open>
  C7. The progress values written by a run are non-decreasing: they are an initial part
  of 10, 25, 50, 75, 100, and the whole of it when all four stages succeed.
\<close>

theorem progress_monotonic:
  "sorted (progress_written (run_events e j p w))
   \<and> (\<exists>n. 1 \<le> n \<and> progress_written (run_events e j p w) = take n checkpoints)
   \<and> (doc_ok e p \<and> ocr_ok e p \<and> nlp_ok e p \<and> form_ok e p \<longrightarrow> progress_written (run_events e j p w) = checkpoints)"
proof (cases rule: run_cases [of e p])
  case doc_fails
  have c: "progress_written (run_events e j p w) = take 1 checkpoints"
    by (simp add: run_events_doc_fails doc_fails ev_defs digit_val_def checkpoints_def)
  from progress_summary [OF c] doc_fails show ?thesis by simp
next
  case ocr_fails
  have c: "progress_written (run_events e j p w) = take 2 checkpoints"
    by (simp add: run_events_ocr_fails ocr_fails ev_defs digit_val_def checkpoints_def)
  from progress_summary [OF c] ocr_fails show ?thesis by simp
next
  case nlp_fails
  have c: "progress_written (run_events e j p w) = take 3 checkpoints"
    by (simp add: run_events_nlp_fails nlp_fails ev_defs digit_val_def checkpoints_def)
  from progress_summary [OF c] nlp_fails show ?thesis by simp
next
  case form_fails
  have c: "progress_written (run_events e j p w) = take 4 checkpoints"
    by (simp add: run_events_form_fails form_fails ev_defs digit_val_def checkpoints_def)
  from progress_summary [OF c] form_fails show ?thesis by simp
next
  case success
  have c: "progress_written (run_events e j p w) = take 5 checkpoints"
    by (simp add: run_events_success success ev_defs digit_val_def checkpoints_def)
  have c': "progress_written (run_events e j p w) = checkpoints"
    using c by (simp add: checkpoints_def)
  from progress_summary [OF c] c' show ?thesis by simp
qed

theorem progress_monotonic_witness:
  "doc_ok all_succeed ''Jane Doe'' \<and> ocr_ok all_succeed ''Jane Doe'' \<and> nlp_ok all_succeed ''Jane Doe'' \<and> form_ok all_succeed ''Jane Doe''
   \<and> progress_written (run_events all_succeed ''j1'' ''Jane Doe'' empty_world) = [10, 25, 50, 75, 100]"
  using progress_monotonic
          [where e = all_succeed and j = "''j1''" and p = "''Jane Doe''" and w = empty_world] all_succeed_ok [of "''Jane Doe''"]
  by (simp add: checkpoints_def)

lemma run_failure_world:
  assumes "fst (process_patient_pipeline e j p w) = Inl ex"
  shows "snd (process_patient_pipeline e j p w) =
     hset (job_key j)
       [(''status'', ''failed''), (''error'', str_exn ex),
        (''failed_at'', now e (snd (pipeline_try e j p w)))]
       (snd (pipeline_try e j p w))"
  using assms by (auto simp: process_patient_pipeline_def split: prod.splits sum.splits)

lemma run_failure_last:
  assumes "fst (process_patient_pipeline e j p w) = Inl ex"
  shows "last (run_events e j p w) =
           failure_write e w j (str_exn ex) (length (run_events e j p w) - 1)"
proof (cases rule: run_cases [of e p])
  case doc_fails
  with assms show ?thesis by (auto simp: run_doc_fails(1) run_events_doc_fails eval_nat_numeral)
next
  case ocr_fails
  with assms show ?thesis by (auto simp: run_ocr_fails(1) run_events_ocr_fails eval_nat_numeral)
next
  case nlp_fails
  with assms show ?thesis by (auto simp: run_nlp_fails(1) run_events_nlp_fails eval_nat_numeral)
next
  case form_fails
  with assms show ?thesis by (auto simp: run_form_fails(1) run_events_form_fails eval_nat_numeral)
next
  case success
  from run_success(1) [OF success, of j w] assms show ?thesis by auto
qed

lemma run_failure_progress:
  "\<not> doc_ok e p \<Longrightarrow> field (snd (process_patient_pipeline e j p w)) j ''progress'' = Some ''10''"
  "doc_ok e p \<Longrightarrow> \<not> ocr_ok e p \<Longrightarrow> field (snd (process_patient_pipeline e j p w)) j ''progress'' = Some ''25''"
  "doc_ok e p \<Longrightarrow> ocr_ok e p \<Longrightarrow> \<not> nlp_ok e p \<Longrightarrow> field (snd (process_patient_pipeline e j p w)) j ''progress'' = Some ''50''"
  "doc_ok e p \<Longrightarrow> ocr_ok e p \<Longrightarrow> nlp_ok e p \<Longrightarrow> \<not> form_ok e p \<Longrightarrow> field (snd (process_patient_pipeline e j p w)) j ''progress'' = Some ''75''"
  by (simp_all add: run_hashes run_events_doc_fails run_events_ocr_fails run_events_nlp_fails
        run_events_form_fails rec_simps)

text \<open>
  C6. When a run ends with an exception, its last event is the write of exactly the
  fields status failed, error and failed at. Every other field of the record, progress
  among them, and every other key keep the value they had when the exception was
  raised. So progress stays at the last checkpoint written: 10 when document failed, 25
  when ocr failed after document, 50 when nlp failed, 75 when form failed.
\<close>

theorem failure_freezes_progress:
  assumes "fst (process_patient_pipeline e j p w) = Inl ex"
  shows "last (run_events e j p w) = failure_write e w j (str_exn ex) (length (run_events e j p w) - 1)
     \<and> (\<forall>f. f \<notin> {''status'', ''error'', ''failed_at''} \<longrightarrow>
           field (snd (process_patient_pipeline e j p w)) j f = field (snd (pipeline_try e j p w)) j f)
     \<and> (\<forall>key. key \<noteq> job_key j \<longrightarrow>
           hashes (snd (process_patient_pipeline e j p w)) key = hashes (snd (pipeline_try e j p w)) key)
     \<and> field (snd (process_patient_pipeline e j p w)) j ''progress'' = field (snd (pipeline_try e j p w)) j ''progress''
     \<and> (\<not> doc_ok e p \<longrightarrow> field (snd (process_patient_pipeline e j p w)) j ''progress'' = Some ''10'')
     \<and> (doc_ok e p \<and> \<not> ocr_ok e p \<longrightarrow> field (snd (process_patient_pipeline e j p w)) j ''progress'' = Some ''25'')
     \<and> (doc_ok e p \<and> ocr_ok e p \<and> \<not> nlp_ok e p \<longrightarrow> field (snd (process_patient_pipeline e j p w)) j ''progress'' = Some ''50'')
     \<and> (doc_ok e p \<and> ocr_ok e p \<and> nlp_ok e p \<and> \<not> form_ok e p \<longrightarrow> field (snd (process_patient_pipeline e j p w)) j ''progress'' = Some ''75'')"
proof -
  note f = assms
  have a: "last (run_events e j p w) = failure_write e w j (str_exn ex) (length (run_events e j p w) - 1)"
    by (rule run_failure_last [OF f])
  have b: "\<forall>f. f \<notin> {''status'', ''error'', ''failed_at''} \<longrightarrow>
           field (snd (process_patient_pipeline e j p w)) j f = field (snd (pipeline_try e j p w)) j f"
    unfolding run_failure_world [OF f] by (simp add: field_def hset_simps map_of_merge3)
  have c: "\<forall>key. key \<noteq> job_key j \<longrightarrow>
           hashes (snd (process_patient_pipeline e j p w)) key = hashes (snd (pipeline_try e j p w)) key"
    unfolding run_failure_world [OF f] by (simp add: hset_simps)
  have d: "field (snd (process_patient_pipeline e j p w)) j ''progress'' = field (snd (pipeline_try e j p w)) j ''progress''"
    using b by simp
  show ?thesis
    using a b c d run_failure_progress [of e p j w] by blast
qed


theorem failure_freezes_progress_witness:
  "fst (process_patient_pipeline document_down ''j1'' ''Jane Doe'' empty_world) =
     Inl (Exception ''Document analysis failed'')
   \<and> \<not> doc_ok document_down ''Jane Doe''
   \<and> field (snd (process_patient_pipeline document_down ''j1'' ''Jane Doe'' empty_world))
        ''j1'' ''progress'' = Some ''10''
   \<and> fst (process_patient_pipeline ocr_unavailable ''j1'' ''Jane Doe'' empty_world) =
     Inl (Exception ''OCR processing failed'')
   \<and> doc_ok ocr_unavailable ''Jane Doe'' \<and> \<not> ocr_ok ocr_unavailable ''Jane Doe''
   \<and> field (snd (process_patient_pipeline ocr_unavailable ''j1'' ''Jane Doe'' empty_world))
        ''j1'' ''progress'' = Some ''25''
   \<and> last (run_events ocr_unavailable ''j1'' ''Jane Doe'' empty_world) =
        HSet ''job:j1'' [(''status'', ''failed''), (''error'', ''OCR processing failed''),
                         (''failed_at'', ''2024-05-01T10:00:00'')]
   \<and> fst (process_patient_pipeline nlp_empty ''j1'' ''Jane Doe'' empty_world) =
     Inl (Exception ''NLP processing failed'')
   \<and> doc_ok nlp_empty ''Jane Doe'' \<and> ocr_ok nlp_empty ''Jane Doe''
   \<and> \<not> nlp_ok nlp_empty ''Jane Doe''
   \<and> field (snd (process_patient_pipeline nlp_empty ''j1'' ''Jane Doe'' empty_world))
        ''j1'' ''progress'' = Some ''50''
   \<and> fst (process_patient_pipeline form_timeout ''j1'' ''Jane Doe'' empty_world) =
     Inl (Exception ''Form filling failed'')
   \<and> doc_ok form_timeout ''Jane Doe'' \<and> ocr_ok form_timeout ''Jane Doe''
   \<and> nlp_ok form_timeout ''Jane Doe'' \<and> \<not> form_ok form_timeout ''Jane Doe''
   \<and> field (snd (process_patient_pipeline form_timeout ''j1'' ''Jane Doe'' empty_world))
        ''j1'' ''progress'' = Some ''75''"
proof -
  note f1 = run_doc_fails(1) [OF document_down_ok, of "''j1''" empty_world]
  note f2 = run_ocr_fails(1) [OF ocr_unavailable_ok, of "''j1''" empty_world]
  note f3 = run_nlp_fails(1) [OF nlp_empty_ok, of "''j1''" empty_world]
  note f4 = run_form_fails(1) [OF form_timeout_ok, of "''j1''" empty_world]
  have len: "length (run_events ocr_unavailable ''j1'' ''Jane Doe'' empty_world) - 1 = 4"
    by (simp add: run_events_ocr_fails ocr_unavailable_ok)
  have fw: "failure_write ocr_unavailable empty_world ''j1'' ''OCR processing failed'' 4 =
        HSet ''job:j1'' [(''status'', ''failed''), (''error'', ''OCR processing failed''),
                         (''failed_at'', ''2024-05-01T10:00:00'')]"
    by (simp add: failure_write_def job_key_def ocr_unavailable_def)
  note i1 = failure_freezes_progress [OF f1]
  note i2 = failure_freezes_progress [OF f2]
  note i3 = failure_freezes_progress [OF f3]
  note i4 = failure_freezes_progress [OF f4]
  have l2: "last (run_events ocr_unavailable ''j1'' ''Jane Doe'' empty_world) =
        HSet ''job:j1'' [(''status'', ''failed''), (''error'', ''OCR processing failed''),
                         (''failed_at'', ''2024-05-01T10:00:00'')]"
    using i2 [THEN conjunct1] len fw by simp
  note c5 = conjunct2 [THEN conjunct2, THEN conjunct2, THEN conjunct2]
  have p1: "field (snd (process_patient_pipeline document_down ''j1'' ''Jane Doe'' empty_world))
        ''j1'' ''progress'' = Some ''10''"
    using i1 [THEN c5, THEN conjunct1] document_down_ok by simp
  have p2: "field (snd (process_patient_pipeline ocr_unavailable ''j1'' ''Jane Doe'' empty_world))
        ''j1'' ''progress'' = Some ''25''"
    using i2 [THEN c5, THEN conjunct2, THEN conjunct1] ocr_unavailable_ok by simp
  have p3: "field (snd (process_patient_pipeline nlp_empty ''j1'' ''Jane Doe'' empty_world))
        ''j1'' ''progress'' = Some ''50''"
    using i3 [THEN c5, THEN conjunct2, THEN conjunct2, THEN conjunct1] nlp_empty_ok by simp
  have p4: "field (snd (process_patient_pipeline form_timeout ''j1'' ''Jane Doe'' empty_world))
        ''j1'' ''progress'' = Some ''75''"
    using i4 [THEN c5, THEN conjunct2, THEN conjunct2, THEN conjunct2] form_timeout_ok by simp
  show ?thesis
    using f1 f2 f3 f4 document_down_ok ocr_unavailable_ok nlp_empty_ok form_timeout_ok
          l2 p1 p2 p3 p4
    by simp
qed

lemma process_patient_simps:
  "hashes (snd (process_patient e u p w)) =
     (hashes w)(job_key u := merge_fields (hashes w (job_key u))
        [(''patient_name'', p), (''status'', ''pending''),
         (''created_at'', utcnow e (length (trace w))), (''progress'', ''0'')])"
  "queue (snd (process_patient e u p w)) = u # queue w"
  "delayed (snd (process_patient e u p w)) = delayed w"
  "trace (snd (process_patient e u p w)) = trace w @
     [HSet (job_key u) [(''patient_name'', p), (''status'', ''pending''),
         (''created_at'', utcnow e (length (trace w))), (''progress'', ''0'')],
      LPush ''processing_queue'' u]"
  by (simp_all add: process_patient_def Let_def hset_simps lpush_def emit_def now_def)

lemma merge_fields_Nil4:
  "merge_fields [] [(a, x), (b, y), (c, z), (d, u)] =
     AList.update d u (AList.update c z (AList.update b y [(a, x)]))"
  by (simp add: merge_fields_def)

text \<open>
  C8, as stated, fails. A job is created under the identifier j1 and run to completion;
  a second creation that draws the same identifier does not fail: it returns normally
  and the existing record is changed, status back to pending and the patient name
  replaced.
\<close>

theorem create_overwrites_existing:
  "hashes (snd (process_patient_pipeline all_succeed ''j1'' ''Jane Doe'' (snd (process_patient all_succeed ''j1'' ''Jane Doe'' empty_world)))) (job_key ''j1'') \<noteq> []
   \<and> field (snd (process_patient_pipeline all_succeed ''j1'' ''Jane Doe'' (snd (process_patient all_succeed ''j1'' ''Jane Doe'' empty_world)))) ''j1'' ''status'' = Some ''completed''
   \<and> field (snd (process_patient all_succeed ''j1'' ''John Roe''
        (snd (process_patient_pipeline all_succeed ''j1'' ''Jane Doe'' (snd (process_patient all_succeed ''j1'' ''Jane Doe'' empty_world)))))) ''j1'' ''status'' = Some ''pending''
   \<and> field (snd (process_patient all_succeed ''j1'' ''John Roe''
        (snd (process_patient_pipeline all_succeed ''j1'' ''Jane Doe'' (snd (process_patient all_succeed ''j1'' ''Jane Doe'' empty_world)))))) ''j1'' ''patient_name'' = Some ''John Roe''"
  by (simp add: process_patient_simps run_hashes run_events_success all_succeed_ok rec_simps map_of_merge4 merge_fields_def empty_world_def)

text \<open>
  C8, amended. Job creation writes patient name, status pending, progress 0 and created
  at now under the key of its identifier and pushes the identifier on the queue; where
  no record was present the record consists of exactly these four fields. The write is
  an unconditional merge: there is no check for an existing record and no error; on an
  existing record the four fields are overwritten and all other fields are kept. No
  other key changes.
\<close>

theorem create_merges_pending_record:
  "field (snd (process_patient e u p w)) u ''status'' = Some ''pending''
   \<and> field (snd (process_patient e u p w)) u ''progress'' = Some ''0''
   \<and> field (snd (process_patient e u p w)) u ''created_at'' = Some (now e w)
   \<and> field (snd (process_patient e u p w)) u ''patient_name'' = Some p
   \<and> (\<forall>f. f \<notin> {''patient_name'', ''status'', ''created_at'', ''progress''} \<longrightarrow>
         field (snd (process_patient e u p w)) u f = field w u f)
   \<and> (\<forall>key. key \<noteq> job_key u \<longrightarrow> hashes (snd (process_patient e u p w)) key = hashes w key)
   \<and> queue (snd (process_patient e u p w)) = u # queue w
   \<and> sub_job_id (fst (process_patient e u p w)) = u
   \<and> (hashes w (job_key u) = [] \<longrightarrow>
        hashes (snd (process_patient e u p w)) (job_key u) =
          [(''patient_name'', p), (''status'', ''pending''), (''created_at'', now e w), (''progress'', ''0'')])"
proof -
  have a: "field (snd (process_patient e u p w)) u ''status'' = Some ''pending''"
    "field (snd (process_patient e u p w)) u ''progress'' = Some ''0''"
    "field (snd (process_patient e u p w)) u ''created_at'' = Some (now e w)"
    "field (snd (process_patient e u p w)) u ''patient_name'' = Some p"
    by (simp_all add: process_patient_simps field_def map_of_merge4 now_def)
  have b: "\<forall>f. f \<notin> {''patient_name'', ''status'', ''created_at'', ''progress''} \<longrightarrow>
         field (snd (process_patient e u p w)) u f = field w u f"
    by (simp add: process_patient_simps field_def map_of_merge4)
  have c: "\<forall>key. key \<noteq> job_key u \<longrightarrow> hashes (snd (process_patient e u p w)) key = hashes w key"
    by (simp add: process_patient_simps)
  have d: "queue (snd (process_patient e u p w)) = u # queue w"
    "sub_job_id (fst (process_patient e u p w)) = u"
    by (simp_all add: process_patient_simps) (simp add: process_patient_def Let_def)
  have f: "hashes w (job_key u) = [] \<longrightarrow>
        hashes (snd (process_patient e u p w)) (job_key u) =
          [(''patient_name'', p), (''status'', ''pending''), (''created_at'', now e w), (''progress'', ''0'')]"
    by (simp add: process_patient_simps merge_fields_def now_def)
  from a b c d f show ?thesis by (intro conjI)
qed

theorem create_merges_pending_record_witness:
  "hashes empty_world (job_key ''j1'') = []
   \<and> hashes (snd (process_patient all_succeed ''j1'' ''Jane Doe'' empty_world)) ''job:j1'' =
        [(''patient_name'', ''Jane Doe''), (''status'', ''pending''),
         (''created_at'', ''2024-05-01T10:00:00''), (''progress'', ''0'')]
   \<and> queue (snd (process_patient all_succeed ''j1'' ''Jane Doe'' empty_world)) = [''j1'']"
  using create_merges_pending_record
          [where e = all_succeed and u = "''j1''" and p = "''Jane Doe''" and w = empty_world]
  by (simp add: empty_world_def job_key_def now_def all_succeed_def)

lemma completed_world_record:
  "field completed_world ''j1'' ''status'' = Some ''completed''"
  "field completed_world ''j1'' ''progress'' = Some ''100''"
  by (simp_all add: completed_world_def run_hashes run_events_success all_succeed_ok rec_simps)

text \<open>
  C3, as stated, fails. The job j1 has run to completion: status completed, progress
  100. A second dispatch of j1, in which the document stage is down, leaves the record
  with status failed and progress 10.
\<close>

theorem second_dispatch_reopens_terminal_job:
  "terminal (hashes completed_world (job_key ''j1''))
   \<and> field completed_world ''j1'' ''status'' = Some ''completed''
   \<and> field completed_world ''j1'' ''progress'' = Some ''100''
   \<and> field (snd (process_patient_pipeline document_down ''j1'' ''Jane Doe'' completed_world)) ''j1'' ''status'' = Some ''failed''
   \<and> field (snd (process_patient_pipeline document_down ''j1'' ''Jane Doe'' completed_world)) ''j1'' ''progress'' = Some ''10''"
  using completed_world_record
  by (simp add: terminal_def field_def [symmetric])
     (simp add: run_hashes run_events_doc_fails document_down_ok rec_simps)

lemma time_unbound: "lookup_global ''time'' = Inl (NameError ''time'')"
  by (simp add: lookup_global_def module_globals_def)

lemma utf8_scan_ascii: "list_all (\<lambda>c. c < 128) bs \<Longrightarrow> utf8_scan pos bs = None"
  by (induction bs arbitrary: pos) simp_all

lemma bytes_decode_ascii:
  assumes "list_all (\<lambda>c. (of_char c :: nat) < 128) b"
  shows "bytes_decode b = Inr b"
proof -
  have "utf8_scan 0 (map of_char b) = None"
    by (rule utf8_scan_ascii) (use assms in \<open>simp add: list_all_iff\<close>)
  then show ?thesis by (simp add: bytes_decode_def)
qed

lemma orphan_raises:
  "consume_try orphan_record_world =
     (Inl (KeyError (''b'' @ [CHR 0x27] @ ''patient_name'' @ [CHR 0x27])),
      orphan_record_world\<lparr>queue := [], trace := [BRPop ''processing_queue'' (Some ''j9'')]\<rparr>)"
  by (simp add: consume_try_def brpop_def emit_def hgetall_def Let_def
        orphan_record_world_def job_key_def bytes_decode_ascii)

text \<open>
  C10. Whenever the body of a turn of the consumer loop raises an exception, the handler
  raises NameError for the unbound name time, and the loop ends with that NameError at
  once, whatever number of turns it had left: it neither pauses nor tries again.
\<close>

theorem handler_raises_name_error:
  assumes "consume_try w = (Inl ex, w')"
  shows "consume_iteration w = (Inl (NameError ''time''), w')
     \<and> consume_processing_queue (Suc n) w = Some (NameError ''time'', w')"
proof -
  have a: "consume_iteration w = (Inl (NameError ''time''), w')"
    using assms by (simp add: consume_iteration_def consume_except_def time_unbound)
  then show ?thesis by simp
qed

theorem handler_raises_name_error_witness:
  "consume_try orphan_record_world =
     (Inl (KeyError (''b'' @ [CHR 0x27] @ ''patient_name'' @ [CHR 0x27])),
      orphan_record_world\<lparr>queue := [], trace := [BRPop ''processing_queue'' (Some ''j9'')]\<rparr>)
   \<and> consume_processing_queue 3 orphan_record_world =
      Some (NameError ''time'',
            orphan_record_world\<lparr>queue := [],
                                 trace := [BRPop ''processing_queue'' (Some ''j9'')]\<rparr>)"
  using handler_raises_name_error [OF orphan_raises, of 2, THEN conjunct2] orphan_raises
  by (simp add: eval_nat_numeral)

subsection \<open>What each operation leaves alone\<close>

lemma consume_try_hashes: "hashes (snd (consume_try w)) = hashes w"
  by (auto simp: consume_try_def brpop_def emit_def delay_def hgetall_def Let_def
           split: option.splits sum.splits)

lemma consume_except_world: "snd (consume_except ex w) = w"
  by (simp add: consume_except_def split: sum.splits)

lemma consume_iteration_hashes: "hashes (snd (consume_iteration w)) = hashes w"
proof (cases "consume_try w")
  case (Pair r w')
  then have "hashes w' = hashes w" using consume_try_hashes [of w] by simp
  with Pair show ?thesis
    by (cases r) (simp_all add: consume_iteration_def consume_except_world)
qed

lemma run_other_key:
  assumes "key \<noteq> job_key j"
  shows "hashes (snd (process_patient_pipeline e j p w)) key = hashes w key"
proof (cases rule: run_cases [of e p])
  case doc_fails
  then show ?thesis using assms by (simp add: run_hashes run_events_doc_fails replay_simps ev_defs)
next
  case ocr_fails
  then show ?thesis using assms by (simp add: run_hashes run_events_ocr_fails replay_simps ev_defs)
next
  case nlp_fails
  then show ?thesis using assms by (simp add: run_hashes run_events_nlp_fails replay_simps ev_defs)
next
  case form_fails
  then show ?thesis using assms by (simp add: run_hashes run_events_form_fails replay_simps ev_defs)
next
  case success
  then show ?thesis using assms by (simp add: run_hashes run_events_success replay_simps ev_defs)
qed

lemma work_other_key:
  assumes "\<not> (i < length (delayed w) \<and> fst (delayed w ! i) = j)"
  shows "hashes (work e i w) (job_key j) = hashes w (job_key j)"
proof (cases "i < length (delayed w)")
  case True
  obtain j' p' where t: "delayed w ! i = (j', p')" by (cases "delayed w ! i")
  with True assms have "j' \<noteq> j" by auto
  then show ?thesis using True t by (simp add: work_def run_other_key)
next
  case False
  then show ?thesis by (simp add: work_def)
qed

lemma apply_op_frame:
  assumes "\<not> targets j x w"
  shows "hashes (apply_op x w) (job_key j) = hashes w (job_key j)"
proof (cases x)
  case (Create e u p)
  with assms show ?thesis by (simp add: process_patient_simps)
next
  case Consume
  then show ?thesis by (simp add: consume_iteration_hashes)
next
  case (Work e i)
  with assms show ?thesis by (simp add: work_other_key)
qed

lemma apply_ops_Cons: "apply_ops (x # xs) w = apply_ops xs (apply_op x w)"
  by (simp add: apply_ops_def)

lemma apply_ops_frame:
  assumes "untouched j ops w"
  shows "hashes (apply_ops ops w) (job_key j) = hashes w (job_key j)"
  using assms
proof (induction ops arbitrary: w)
  case Nil
  then show ?case by (simp add: apply_ops_def)
next
  case (Cons x xs)
  then show ?case by (simp add: apply_ops_Cons apply_op_frame)
qed

lemma run_queue_delayed:
  "queue (snd (process_patient_pipeline e j p w)) = queue w"
  "delayed (snd (process_patient_pipeline e j p w)) = delayed w"
proof -
  show "queue (snd (process_patient_pipeline e j p w)) = queue w"
    by (cases rule: run_cases [of e p]) (simp_all add: run_unfold ok_defs)
  show "delayed (snd (process_patient_pipeline e j p w)) = delayed w"
    by (cases rule: run_cases [of e p]) (simp_all add: run_unfold ok_defs)
qed

lemma consume_dispatch:
  assumes "queue w = q @ [token]" and "bytes_decode token = Inr job_id"
    and "map_of (hashes w (job_key job_id)) ''patient_name'' = Some raw"
    and "bytes_decode raw = Inr p"
  shows "consume_iteration w =
     (Inr (), w\<lparr>queue := q, delayed := delayed w @ [(job_id, p)],
                 trace := trace w @ [BRPop ''processing_queue'' (Some token), Delay job_id p]\<rparr>)"
proof -
  from assms(3) have "hashes w (job_key job_id) \<noteq> []" by auto
  with assms show ?thesis
    by (simp add: consume_iteration_def consume_try_def brpop_def emit_def hgetall_def Let_def
          delay_def)
qed

lemma create_consume:
  assumes "queue w = []" "delayed w = []" "bytes_decode u = Inr u" "bytes_decode p = Inr p"
  shows "apply_op Consume (apply_op (Create e u p) w) = dispatched_world e u p w"
proof -
  let ?c = "snd (process_patient e u p w)"
  have q: "queue ?c = [] @ [u]" using assms(1) by (simp add: process_patient_simps)
  have d: "delayed ?c = []" using assms(2) by (simp add: process_patient_simps)
  have n: "map_of (hashes ?c (job_key u)) ''patient_name'' = Some p"
    by (simp add: process_patient_simps map_of_merge4)
  from consume_dispatch [OF q assms(3) n assms(4)] d
  show ?thesis by (simp add: dispatched_world_def)
qed

lemma lifecycle:
  assumes "queue w = []" "delayed w = []" "bytes_decode u = Inr u" "bytes_decode p = Inr p"
  shows "apply_ops [Create e1 u p, Consume, Work e2 0] w =
           snd (process_patient_pipeline e2 u p ((dispatched_world e1 u p w)\<lparr>delayed := []\<rparr>))"
proof -
  have "apply_ops [Create e1 u p, Consume, Work e2 0] w =
          work e2 0 (apply_op Consume (apply_op (Create e1 u p) w))"
    by (simp add: apply_ops_def)
  also have "\<dots> = work e2 0 (dispatched_world e1 u p w)"
    by (simp only: create_consume [OF assms])
  also have "\<dots> = snd (process_patient_pipeline e2 u p ((dispatched_world e1 u p w)\<lparr>delayed := []\<rparr>))"
    by (simp add: work_def dispatched_world_def)
  finally show ?thesis .
qed

lemma lifecycle_untouched:
  assumes "queue w = []" "delayed w = []" "bytes_decode u = Inr u" "bytes_decode p = Inr p"
    and "j \<noteq> u"
  shows "untouched j [Create e1 u p, Consume, Work e2 0] w"
proof -
  let ?c = "snd (process_patient e1 u p w)"
  have d: "delayed ?c = []" using assms(2) by (simp add: process_patient_simps)
  have cc: "snd (consume_iteration ?c) = dispatched_world e1 u p w"
    using create_consume [OF assms(1-4), of e1] by simp
  have t1: "\<not> targets j (Create e1 u p) w" using assms(5) by simp
  have t2: "\<not> targets j Consume ?c"
    using assms(5) by (simp add: dispatches_def cc d) (simp add: dispatched_world_def)
  have t3: "\<not> targets j (Work e2 0) (snd (consume_iteration ?c))"
    using assms(5) by (simp only: cc) (simp add: dispatched_world_def)
  from t1 t2 t3 show ?thesis by simp
qed

lemma served_world_facts:
  "queue served_world = []" "delayed served_world = []"
  "field served_world ''j1'' ''status'' = Some ''completed''"
  "field served_world ''j1'' ''progress'' = Some ''100''"
proof -
  have e: "served_world = snd (process_patient_pipeline all_succeed ''j1'' ''Jane Doe''
             ((dispatched_world all_succeed ''j1'' ''Jane Doe'' empty_world)\<lparr>delayed := []\<rparr>))"
    unfolding served_world_def
    by (rule lifecycle) (simp_all add: empty_world_def bytes_decode_ascii)
  show "queue served_world = []" "delayed served_world = []"
    by (simp_all add: e run_queue_delayed dispatched_world_def)
  show "field served_world ''j1'' ''status'' = Some ''completed''"
    "field served_world ''j1'' ''progress'' = Some ''100''"
    by (simp_all add: e run_hashes run_events_success all_succeed_ok rec_simps)
qed

text \<open>
  C3, amended. For every job record whose status is completed or failed, no sequence of
  operations of the core changes its status, its progress or any other of its fields,
  provided that no operation of the sequence creates a job under the same identifier,
  dispatches a run for it (a consumer turn that takes its token from the queue) or
  executes a run for it. Creations, consumer turns and runs for other jobs leave the
  record as it is.
\<close>

theorem terminal_stable_without_redispatch:
  "terminal (hashes w (job_key j)) \<and> untouched j ops w \<longrightarrow>
     field (apply_ops ops w) j ''status'' = field w j ''status''
     \<and> field (apply_ops ops w) j ''progress'' = field w j ''progress''
     \<and> hashes (apply_ops ops w) (job_key j) = hashes w (job_key j)
     \<and> terminal (hashes (apply_ops ops w) (job_key j))"
  by (simp add: apply_ops_frame field_def)

theorem terminal_stable_without_redispatch_witness:
  "terminal (hashes served_world (job_key ''j1''))
   \<and> untouched ''j1'' [Create all_succeed ''j2'' ''John Roe'', Consume, Work ocr_unavailable 0]
        served_world
   \<and> field (apply_ops [Create all_succeed ''j2'' ''John Roe'', Consume, Work ocr_unavailable 0]
               served_world) ''j1'' ''status'' = Some ''completed''
   \<and> field (apply_ops [Create all_succeed ''j2'' ''John Roe'', Consume, Work ocr_unavailable 0]
               served_world) ''j1'' ''progress'' = Some ''100''"
proof -
  have t: "terminal (hashes served_world (job_key ''j1''))"
    using served_world_facts(3) by (simp add: terminal_def field_def)
  have n: "untouched ''j1'' [Create all_succeed ''j2'' ''John Roe'', Consume, Work ocr_unavailable 0]
        served_world"
    by (rule lifecycle_untouched) (simp_all add: served_world_facts bytes_decode_ascii)
  from terminal_stable_without_redispatch
         [where w = served_world and j = "''j1''"
             and ops = "[Create all_succeed ''j2'' ''John Roe'', Consume, Work ocr_unavailable 0]"]
       t n
  show ?thesis using served_world_facts by simp
qed




subsection \<open>The record along a sequence of operations\<close>


lemma hd_states: "hd (states h evs) = h"
  by (cases evs) simp_all



















end
